theory Spec2Isabelle
  imports Main "HOL-Library.Sublist" "HOL-Library.AList"
begin

section \<open>JSON values and the Python operations applied to them\<close>

text \<open>
  Everything the client reads from the network is the result of \<^verbatim>\<open>response.json()\<close>:
  a JSON value. Objects are association lists (a Python dict keeps insertion order);
  numbers are the integers (non-integer numbers are outside this model); strings are
  \<open>string\<close>s. Python's \<^verbatim>\<open>None\<close> is \<open>JNull\<close>.
\<close>

datatype json =
    JNull
  | JBool bool
  | JInt int
  | JStr string
  | JList "json list"
  | JObj "(string \<times> json) list"

text \<open>The exceptions the source can meet, \<open>OtherError\<close> standing for every other class by
  its name. Only \<open>RequestException\<close> is caught by
  \<^verbatim>\<open>except requests.exceptions.RequestException\<close>.\<close>

datatype exn =
  RequestException | KeyError | TypeError | AttributeError | OSError | OtherError string

text \<open>Python truthiness (\<^verbatim>\<open>if x:\<close>, \<^verbatim>\<open>not x\<close>, \<^verbatim>\<open>x or y\<close>).\<close>

fun truthy :: "json \<Rightarrow> bool" where
  "truthy JNull = False"
| "truthy (JBool b) = b"
| "truthy (JInt n) = (n \<noteq> 0)"
| "truthy (JStr s) = (s \<noteq> [])"
| "truthy (JList xs) = (xs \<noteq> [])"
| "truthy (JObj d) = (d \<noteq> [])"

text \<open>\<^verbatim>\<open>x[k]\<close> for a string key: KeyError on a dict without the key, TypeError on
  every other value.\<close>

fun py_index :: "json \<Rightarrow> string \<Rightarrow> exn + json" where
  "py_index (JObj d) k = (case map_of d k of None \<Rightarrow> Inl KeyError | Some v \<Rightarrow> Inr v)"
| "py_index _ k = Inl TypeError"

text \<open>\<^verbatim>\<open>x.get(k, default)\<close>: only a dict has the method.\<close>

fun py_get :: "json \<Rightarrow> string \<Rightarrow> json \<Rightarrow> exn + json" where
  "py_get (JObj d) k dflt = Inr (case map_of d k of None \<Rightarrow> dflt | Some v \<Rightarrow> v)"
| "py_get _ k dflt = Inl AttributeError"

text \<open>\<^verbatim>\<open>k in x\<close> for a string \<open>k\<close>: key membership in a dict, element membership in a
  list, substring test in a string, TypeError otherwise.\<close>

fun py_contains :: "json \<Rightarrow> string \<Rightarrow> exn + bool" where
  "py_contains (JObj d) k = Inr (map_of d k \<noteq> None)"
| "py_contains (JList xs) k = Inr (JStr k \<in> set xs)"
| "py_contains (JStr s) k = Inr (sublist k s)"
| "py_contains _ k = Inl TypeError"

text \<open>\<^verbatim>\<open>x[k] = v\<close> for a string key: an existing key keeps its position, a new key
  goes last; TypeError on every value that is not a dict.\<close>

fun py_setitem :: "json \<Rightarrow> string \<Rightarrow> json \<Rightarrow> exn + json" where
  "py_setitem (JObj d) k v = Inr (JObj (AList.update k v d))"
| "py_setitem _ k v = Inl TypeError"

text \<open>Iteration (\<^verbatim>\<open>for x in v\<close>, \<^verbatim>\<open>list.extend(v)\<close>): the elements of a list, the keys
  of a dict, the characters of a string; TypeError otherwise.\<close>

fun py_iter :: "json \<Rightarrow> exn + json list" where
  "py_iter (JList xs) = Inr xs"
| "py_iter (JObj d) = Inr (map (\<lambda>kv. JStr (fst kv)) d)"
| "py_iter (JStr s) = Inr (map (\<lambda>c. JStr [c]) s)"
| "py_iter _ = Inl TypeError"

text \<open>\<^verbatim>\<open>page < total_pages\<close> with an int on the left: bool is a subclass of int, every
  other type on the right raises TypeError.\<close>

fun py_less :: "int \<Rightarrow> json \<Rightarrow> exn + bool" where
  "py_less p (JInt n) = Inr (p < n)"
| "py_less p (JBool b) = Inr (p < (if b then 1 else 0))"
| "py_less p _ = Inl TypeError"

text \<open>Membership in a Python \<^verbatim>\<open>set\<close> hashes the value: lists and dicts are unhashable
  (TypeError), and \<^verbatim>\<open>True == 1\<close>, \<^verbatim>\<open>False == 0\<close> share their hash and are equal.
  \<open>py_key\<close> is the representative stored in the set.\<close>

fun hashable :: "json \<Rightarrow> bool" where
  "hashable (JList xs) = False"
| "hashable (JObj d) = False"
| "hashable _ = True"

fun py_key :: "json \<Rightarrow> json" where
  "py_key (JBool b) = JInt (if b then 1 else 0)"
| "py_key v = v"

section \<open>The outside world\<close>

text \<open>The Authorization header is \<^verbatim>\<open>f'Bearer {token}'\<close>; it is kept as the token it
  was formatted from.\<close>

datatype auth = Bearer json

text \<open>The three texts sent to the chat, kept as the values they are formatted from:
  \<^verbatim>\<open>Processing area {name} (ID: {id})\<close>, \<^verbatim>\<open>Fetching vacancies for role {name} (ID: {id})\<close>
  and \<^verbatim>\<open>Inserted: {inserted}, Duplicates: {duplicates}\<close>.\<close>

datatype message =
    Processing_area json json
  | Fetching_role json json
  | Summary nat nat

text \<open>Every call that leaves the process is recorded, in order.\<close>

datatype event =
    Http_get json auth "(string \<times> json) list"
  | Token_post
  | Set_key json
  | Telegram message
  | Db_find_one json json
  | Db_insert_one json

text \<open>An HTTP exchange either fails in transport (a \<open>RequestException\<close>) or gives a
  status and a body; the body is \<open>None\<close> when it is not JSON, and then
  \<^verbatim>\<open>response.json()\<close> raises the JSONDecodeError of \<^verbatim>\<open>requests\<close>, which is a
  \<open>RequestException\<close> too.\<close>

datatype http_result = Transport_error | Response nat "json option"

text \<open>What the outside answers, as a function of everything that happened before the
  call (so answers may change over time) and of the call's arguments:
  \<^verbatim>\<open>requests.get\<close>, the token \<^verbatim>\<open>requests.post\<close>, \<^verbatim>\<open>set_key\<close> (\<open>None\<close>: the token is
  written; \<open>Some e\<close>: the call raises \<open>e\<close>, as it does for a file that cannot be written
  or a token that is not a string), the chat \<^verbatim>\<open>requests.post\<close>, \<^verbatim>\<open>db.insert_one\<close>
  (False: it raises) and \<^verbatim>\<open>datetime.utcnow().strftime('%d.%m.%Y')\<close>.\<close>

record env =
  http_get :: "event list \<Rightarrow> json \<Rightarrow> auth \<Rightarrow> (string \<times> json) list \<Rightarrow> http_result"
  token_post :: "event list \<Rightarrow> http_result"
  set_key :: "event list \<Rightarrow> json \<Rightarrow> exn option"
  telegram_post :: "event list \<Rightarrow> message \<Rightarrow> http_result"
  insert_one_ok :: "event list \<Rightarrow> json \<Rightarrow> bool"
  utcnow :: "event list \<Rightarrow> string"

text \<open>The state of the process: the fields of \<^verbatim>\<open>ApiHhRu\<close>, the stored documents and
  the record of outside calls.\<close>

record world =
  ACCESS_TOKEN :: json
  headers :: auth
  AREAS :: "string list"
  db :: "json list"
  trace :: "event list"

definition emit :: "event \<Rightarrow> world \<Rightarrow> world" where
  "emit e w = w\<lparr>trace := trace w @ [e]\<rparr>"

text \<open>A call returns a value or raises, and leaves a world either way.\<close>

type_synonym 'a res = "(exn + 'a) \<times> world"

text \<open>\<^verbatim>\<open>response.raise_for_status()\<close> raises for the statuses 400 to 599.\<close>

definition raises_for_status :: "nat \<Rightarrow> bool" where
  "raises_for_status status = (400 \<le> status \<and> status < 600)"

section \<open>The API client\<close>

definition BASE_URL :: string where
  "BASE_URL = ''https://api.hh.ru''"


text \<open>\<^verbatim>\<open>bot_send_message\<close>: one POST, then \<^verbatim>\<open>response.json()\<close>; nothing is caught.\<close>

definition bot_send_message :: "env \<Rightarrow> message \<Rightarrow> world \<Rightarrow> json res" where
  "bot_send_message E m w =
     (let w1 = emit (Telegram m) w in
      case telegram_post E (trace w) m of
        Transport_error \<Rightarrow> (Inl RequestException, w1)
      | Response status body \<Rightarrow>
          (case body of None \<Rightarrow> (Inl RequestException, w1) | Some j \<Rightarrow> (Inr j, w1)))"

text \<open>\<^verbatim>\<open>refresh_access_token\<close> (lines 46-77). The write of the token is inside the
  \<^verbatim>\<open>try\<close>: what it raises leaves the function, unless it is a request exception, which
  the handler turns into False.\<close>

definition refresh_access_token :: "env \<Rightarrow> world \<Rightarrow> bool res" where
  "refresh_access_token E w =
     (let w1 = emit Token_post w in
      case token_post E (trace w) of
        Transport_error \<Rightarrow> (Inr False, w1)
      | Response status body \<Rightarrow>
          if raises_for_status status then (Inr False, w1)
          else (case body of
              None \<Rightarrow> (Inr False, w1)
            | Some tokens \<Rightarrow>
                (case py_get tokens ''access_token'' JNull of
                   Inl e \<Rightarrow> (Inl e, w1)
                 | Inr new_access_token \<Rightarrow>
                     if truthy new_access_token then
                       (let w2 = w1\<lparr>ACCESS_TOKEN := new_access_token,
                                     headers := Bearer new_access_token\<rparr>;
                            w3 = emit (Set_key new_access_token) w2
                        in case set_key E (trace w2) new_access_token of
                             None \<Rightarrow> (Inr True, w3)
                           | Some e \<Rightarrow>
                               if e = RequestException then (Inr False, w3) else (Inl e, w3))
                     else (Inr False, w1))))"

text \<open>The tail of \<^verbatim>\<open>_get\<close>: \<^verbatim>\<open>raise_for_status\<close>, then \<^verbatim>\<open>response.json()\<close>, both
  under the handler that returns None.\<close>

definition finish_get :: "nat \<Rightarrow> json option \<Rightarrow> json" where
  "finish_get status body =
     (if raises_for_status status then JNull
      else (case body of None \<Rightarrow> JNull | Some j \<Rightarrow> j))"

text \<open>\<^verbatim>\<open>_get\<close> (lines 79-96).\<close>

definition api_get :: "env \<Rightarrow> json \<Rightarrow> (string \<times> json) list \<Rightarrow> world \<Rightarrow> json res" where
  "api_get E url params w =
     (let w1 = emit (Http_get url (headers w) params) w in
      case http_get E (trace w) url (headers w) params of
        Transport_error \<Rightarrow> (Inr JNull, w1)
      | Response status body \<Rightarrow>
          if status = 401 then
            (case refresh_access_token E w1 of
               (Inl e, w2) \<Rightarrow> (Inl e, w2)
             | (Inr refreshed, w2) \<Rightarrow>
                 if refreshed then
                   (let w3 = emit (Http_get url (headers w2) params) w2 in
                    case http_get E (trace w2) url (headers w2) params of
                      Transport_error \<Rightarrow> (Inr JNull, w3)
                    | Response status2 body2 \<Rightarrow> (Inr (finish_get status2 body2), w3))
                 else (Inr JNull, w2))
          else (Inr (finish_get status body), w1))"

text \<open>\<^verbatim>\<open>fetch_countries\<close>: \<^verbatim>\<open>self._get(...) or []\<close>.\<close>

definition fetch_countries :: "env \<Rightarrow> world \<Rightarrow> json res" where
  "fetch_countries E w =
     (case api_get E (JStr (BASE_URL @ ''/areas/countries'')) [] w of
        (Inl e, w1) \<Rightarrow> (Inl e, w1)
      | (Inr r, w1) \<Rightarrow> (Inr (if truthy r then r else JList []), w1))"

text \<open>\<^verbatim>\<open>next((country['url'] for country in countries if country['name'] == country_name), '')\<close>:
  the scan reads \<^verbatim>\<open>country['name']\<close> of every country up to the first match and
  \<^verbatim>\<open>country['url']\<close> of the match.\<close>

fun next_country_url :: "json list \<Rightarrow> string \<Rightarrow> exn + json" where
  "next_country_url [] country_name = Inr (JStr [])"
| "next_country_url (country # countries) country_name =
     (case py_index country ''name'' of
        Inl e \<Rightarrow> Inl e
      | Inr n \<Rightarrow>
          if n = JStr country_name then py_index country ''url''
          else next_country_url countries country_name)"

text \<open>\<^verbatim>\<open>find_country_url\<close> (lines 102-105).\<close>

definition find_country_url :: "env \<Rightarrow> string \<Rightarrow> world \<Rightarrow> json res" where
  "find_country_url E country_name w =
     (case fetch_countries E w of
        (Inl e, w1) \<Rightarrow> (Inl e, w1)
      | (Inr countries, w1) \<Rightarrow>
          (case py_iter countries of
             Inl e \<Rightarrow> (Inl e, w1)
           | Inr cs \<Rightarrow>
               (case next_country_url cs country_name of
                  Inl e \<Rightarrow> (Inl e, w1)
                | Inr u \<Rightarrow> (Inr u, w1))))"




text \<open>\<^verbatim>\<open>get_vacancies\<close> (lines 125-136).\<close>

definition vacancy_params :: "json \<Rightarrow> json \<Rightarrow> int \<Rightarrow> (string \<times> json) list" where
  "vacancy_params area_id professional_role_id page =
     [(''area'', area_id), (''professional_role'', professional_role_id),
      (''page'', JInt page), (''per_page'', JInt 100)]"

definition get_vacancies :: "env \<Rightarrow> json \<Rightarrow> json \<Rightarrow> int \<Rightarrow> world \<Rightarrow> json res" where
  "get_vacancies E area_id professional_role_id page w =
     api_get E (JStr (BASE_URL @ ''/vacancies''))
       (vacancy_params area_id professional_role_id page) w"

text \<open>One turn of the loop of \<^verbatim>\<open>fetch_all_vacancies\<close> (lines 143-151): \<open>None\<close> is
  \<^verbatim>\<open>break\<close>, \<open>Some (items, total_pages)\<close> the items to append and the total read
  from this page.\<close>

definition fetch_page :: "env \<Rightarrow> json \<Rightarrow> json \<Rightarrow> int \<Rightarrow> world \<Rightarrow> ((json list \<times> json) option) res" where
  "fetch_page E area_id professional_role_id page w =
     (case get_vacancies E area_id professional_role_id page w of
        (Inl e, w1) \<Rightarrow> (Inl e, w1)
      | (Inr data, w1) \<Rightarrow>
          if \<not> truthy data then (Inr None, w1)
          else
            (case py_contains data ''items'' of
               Inl e \<Rightarrow> (Inl e, w1)
             | Inr has_items \<Rightarrow>
                 if \<not> has_items then (Inr None, w1)
                 else
                   (case py_index data ''items'' of
                      Inl e \<Rightarrow> (Inl e, w1)
                    | Inr v \<Rightarrow>
                        (case py_iter v of
                           Inl e \<Rightarrow> (Inl e, w1)
                         | Inr items \<Rightarrow>
                             (case py_get data ''pages'' (JInt 1) of
                                Inl e \<Rightarrow> (Inl e, w1)
                              | Inr total_pages \<Rightarrow> (Inr (Some (items, total_pages)), w1))))))"

text \<open>The loop \<^verbatim>\<open>while page < total_pages\<close>. The total is read again on every page, so
  the loop need not end: not returning is \<open>None\<close>.\<close>

partial_function (option) fetch_loop ::
  "env \<Rightarrow> json \<Rightarrow> json \<Rightarrow> json list \<Rightarrow> int \<Rightarrow> json \<Rightarrow> world \<Rightarrow> ((json list) res) option" where
  "fetch_loop E area_id professional_role_id vacancies page total_pages w =
     (case py_less page total_pages of
        Inl e \<Rightarrow> Some (Inl e, w)
      | Inr go \<Rightarrow>
          if \<not> go then Some (Inr vacancies, w)
          else
            (case fetch_page E area_id professional_role_id page w of
               (Inl e, w1) \<Rightarrow> Some (Inl e, w1)
             | (Inr None, w1) \<Rightarrow> Some (Inr vacancies, w1)
             | (Inr (Some (items, new_total)), w1) \<Rightarrow>
                 fetch_loop E area_id professional_role_id (vacancies @ items) (page + 1) new_total w1))"

declare fetch_loop.simps [code]

text \<open>\<^verbatim>\<open>fetch_all_vacancies\<close> (lines 138-154).\<close>

definition fetch_all_vacancies :: "env \<Rightarrow> json \<Rightarrow> json \<Rightarrow> world \<Rightarrow> ((json list) res) option" where
  "fetch_all_vacancies E area_id professional_role_id w =
     fetch_loop E area_id professional_role_id [] 0 (JInt 1) w"

section \<open>The document store\<close>

text \<open>Modelled from the spec: the collection \<^verbatim>\<open>db\<close> of the module \<^verbatim>\<open>dbConnection\<close>, which
  is not among the sources. The spec gives it a point query by compound equality on
  \<open>{id, entry_date}\<close> and a single-document insert that may fail. The stored documents
  are the field \<open>db\<close> of the world; a failing insert stores nothing.\<close>

definition matches :: "json \<Rightarrow> json \<Rightarrow> json \<Rightarrow> bool" where
  "matches vid entry_date doc =
     (py_index doc ''id'' = Inr vid \<and> py_index doc ''entry_date'' = Inr entry_date)"

definition find_one :: "json list \<Rightarrow> json \<Rightarrow> json \<Rightarrow> json option" where
  "find_one docs vid entry_date = find (matches vid entry_date) docs"

section \<open>Saving a batch\<close>

text \<open>The loop of \<^verbatim>\<open>save_vacancies_to_db\<close> (lines 160-172), with its two counters.\<close>

fun save_loop :: "env \<Rightarrow> json \<Rightarrow> json list \<Rightarrow> nat \<Rightarrow> nat \<Rightarrow> world \<Rightarrow> (nat \<times> nat) res" where
  "save_loop E area_name [] inserted duplicates w = (Inr (inserted, duplicates), w)"
| "save_loop E area_name (vacancy # vacancies) inserted duplicates w =
     (case py_setitem vacancy ''entry_date'' (JStr (utcnow E (trace w))) of
        Inl e \<Rightarrow> (Inl e, w)
      | Inr v1 \<Rightarrow>
     (case py_setitem v1 ''area_name'' area_name of
        Inl e \<Rightarrow> (Inl e, w)
      | Inr v2 \<Rightarrow>
     (case py_index v2 ''id'' of
        Inl e \<Rightarrow> (Inl e, w)
      | Inr vid \<Rightarrow>
     (case py_index v2 ''entry_date'' of
        Inl e \<Rightarrow> (Inl e, w)
      | Inr entry_date \<Rightarrow>
          (let w1 = emit (Db_find_one vid entry_date) w in
           if find_one (db w) vid entry_date \<noteq> None
           then save_loop E area_name vacancies inserted (duplicates + 1) w1
           else
             (let w2 = emit (Db_insert_one v2) w1 in
              if insert_one_ok E (trace w1) v2
              then save_loop E area_name vacancies (inserted + 1) duplicates
                     (w2\<lparr>db := db w2 @ [v2]\<rparr>)
              else
                (case py_index v2 ''url'' of
                   Inl e \<Rightarrow> (Inl e, w2)
                 | Inr u \<Rightarrow> save_loop E area_name vacancies inserted duplicates w2)))))))"

text \<open>\<^verbatim>\<open>save_vacancies_to_db\<close> (lines 156-175).\<close>

definition save_vacancies_to_db :: "env \<Rightarrow> json list \<Rightarrow> json \<Rightarrow> world \<Rightarrow> unit res" where
  "save_vacancies_to_db E vacancies area_name w =
     (case save_loop E area_name vacancies 0 0 w of
        (Inl e, w1) \<Rightarrow> (Inl e, w1)
      | (Inr (inserted, duplicates), w1) \<Rightarrow>
          (case bot_send_message E (Summary inserted duplicates) w1 of
             (Inl e, w2) \<Rightarrow> (Inl e, w2)
           | (Inr r, w2) \<Rightarrow> (Inr (), w2)))"

section \<open>The sweep\<close>

text \<open>The inner loop of the role deduplication (lines 195-199), over the roles of one
  category.\<close>

fun dedup_roles :: "json list \<Rightarrow> json set \<Rightarrow> json list \<Rightarrow> exn + (json list \<times> json set)" where
  "dedup_roles [] unique_role_ids unique_roles_in_category =
     Inr (unique_roles_in_category, unique_role_ids)"
| "dedup_roles (role # roles) unique_role_ids unique_roles_in_category =
     (case py_index role ''id'' of
        Inl e \<Rightarrow> Inl e
      | Inr role_id \<Rightarrow>
          if \<not> hashable role_id then Inl TypeError
          else if py_key role_id \<notin> unique_role_ids
          then dedup_roles roles (insert (py_key role_id) unique_role_ids)
                 (unique_roles_in_category @ [role])
          else dedup_roles roles unique_role_ids unique_roles_in_category)"

text \<open>The outer loop (lines 193-201), over the categories.\<close>

fun dedup_categories :: "json list \<Rightarrow> json set \<Rightarrow> json list \<Rightarrow> exn + json list" where
  "dedup_categories [] unique_role_ids filtered_roles = Inr filtered_roles"
| "dedup_categories (category # categories) unique_role_ids filtered_roles =
     (case py_index category ''roles'' of
        Inl e \<Rightarrow> Inl e
      | Inr v \<Rightarrow>
          (case py_iter v of
             Inl e \<Rightarrow> Inl e
           | Inr roles \<Rightarrow>
               (case dedup_roles roles unique_role_ids [] of
                  Inl e \<Rightarrow> Inl e
                | Inr (unique_roles_in_category, ids) \<Rightarrow>
                    dedup_categories categories ids
                      (if unique_roles_in_category \<noteq> []
                       then filtered_roles @ [JObj [(''roles'', JList unique_roles_in_category)]]
                       else filtered_roles))))"






section \<open>Vocabulary of the properties\<close>

text \<open>A value is a dict that holds the key.\<close>

fun has_key :: "json \<Rightarrow> string \<Rightarrow> bool" where
  "has_key (JObj d) k = (map_of d k \<noteq> None)"
| "has_key _ k = False"

text \<open>The outside calls made between two worlds of one run.\<close>

definition new_events :: "world \<Rightarrow> world \<Rightarrow> event list" where
  "new_events w w' = drop (length (trace w)) (trace w')"

fun is_http_get :: "event \<Rightarrow> bool" where
  "is_http_get (Http_get url a p) = True"
| "is_http_get _ = False"

text \<open>A GET that ends in the handler of \<^verbatim>\<open>_get\<close>: no response, a status for which
  \<^verbatim>\<open>raise_for_status\<close> raises, or a body that is not JSON.\<close>

definition failed_response :: "http_result \<Rightarrow> bool" where
  "failed_response x =
     (case x of Transport_error \<Rightarrow> True
      | Response status body \<Rightarrow> raises_for_status status \<or> body = None)"

text \<open>\<^verbatim>\<open>__init__\<close> (lines 41-44), with an empty store and no call made yet.\<close>

definition init :: "json \<Rightarrow> string list \<Rightarrow> world" where
  "init token areas =
     \<lparr>ACCESS_TOKEN = token, headers = Bearer token, AREAS = areas, db = [], trace = []\<rparr>"

subsection \<open>Concrete outsides, for the examples\<close>

text \<open>An outside where the listings service is unreachable, the chat answers, the
  store accepts every insert and the date is fixed.\<close>

definition quiet_env :: env where
  "quiet_env =
     \<lparr>http_get = (\<lambda>h url a p. Transport_error),
      token_post = (\<lambda>h. Transport_error),
      set_key = (\<lambda>h t. None),
      telegram_post = (\<lambda>h m. Response 200 (Some (JObj [(''ok'', JBool True)]))),
      insert_one_ok = (\<lambda>h d. True),
      utcnow = (\<lambda>h. ''04.11.2026'')\<rparr>"

text \<open>Every GET answers 200 with the same body.\<close>

definition const_env :: "json \<Rightarrow> env" where
  "const_env body = quiet_env\<lparr>http_get := (\<lambda>h url a p. Response 200 (Some body))\<rparr>"

definition three_countries :: "json list" where
  "three_countries =
     [JObj [(''name'', JStr ''A''), (''url'', JStr ''u1'')],
      JObj [(''name'', JStr ''B''), (''url'', JStr ''u2'')],
      JObj [(''name'', JStr ''B''), (''url'', JStr ''u3'')]]"

text \<open>The token endpoint gives one fixed answer, and the write of the token to the
  configuration file succeeds (\<open>None\<close>) or raises.\<close>

definition token_env :: "http_result \<Rightarrow> exn option \<Rightarrow> env" where
  "token_env answer written =
     quiet_env\<lparr>token_post := (\<lambda>h. answer), set_key := (\<lambda>h t. written)\<rparr>"

text \<open>A token that is a number, which \<^verbatim>\<open>set_key\<close> cannot write.\<close>

definition numeric_token :: json where
  "numeric_token = JObj [(''access_token'', JInt 123)]"

definition new_token :: json where
  "new_token = JObj [(''access_token'', JStr ''new'')]"

text \<open>The listings service answers 401 to every header but the one of the new token.\<close>

definition expired_env :: "http_result \<Rightarrow> exn option \<Rightarrow> http_result \<Rightarrow> env" where
  "expired_env answer written retried =
     (token_env answer written)
       \<lparr>http_get := (\<lambda>h url a p. if a = Bearer (JStr ''new'') then retried else Response 401 None)\<rparr>"

subsection \<open>Listings and the store\<close>

text \<open>A listing as the loop of \<^verbatim>\<open>save_vacancies_to_db\<close> reads it: a dict with an \<^verbatim>\<open>id\<close>
  and a \<^verbatim>\<open>url\<close>.\<close>

definition wf_listing :: "json \<Rightarrow> bool" where
  "wf_listing v = (has_key v ''id'' \<and> has_key v ''url'')"

definition listing_id :: "json \<Rightarrow> json" where
  "listing_id v = (case py_index v ''id'' of Inr i \<Rightarrow> i | Inl e \<Rightarrow> JNull)"

text \<open>The listing with its two stamps: \<^verbatim>\<open>entry_date\<close> and \<^verbatim>\<open>area_name\<close>.\<close>

fun stamp :: "string \<Rightarrow> json \<Rightarrow> json \<Rightarrow> json" where
  "stamp date area_name (JObj d) =
     JObj (AList.update ''area_name'' area_name (AList.update ''entry_date'' (JStr date) d))"
| "stamp date area_name v = v"

fun is_insert :: "event \<Rightarrow> bool" where
  "is_insert (Db_insert_one d) = True"
| "is_insert _ = False"

fun is_telegram :: "event \<Rightarrow> bool" where
  "is_telegram (Telegram m) = True"
| "is_telegram _ = False"

text \<open>The ids looked up in the store, in order.\<close>

fun lookup_ids :: "event list \<Rightarrow> json list" where
  "lookup_ids [] = []"
| "lookup_ids (Db_find_one vid date # es) = vid # lookup_ids es"
| "lookup_ids (e # es) = lookup_ids es"

text \<open>The number of inserts that the store answered with an error, among the calls \<open>es\<close>
  made after the calls \<open>h\<close>.\<close>

fun failed_inserts :: "env \<Rightarrow> event list \<Rightarrow> event list \<Rightarrow> nat" where
  "failed_inserts E h [] = 0"
| "failed_inserts E h (Db_insert_one d # es) =
     (if insert_one_ok E h d then 0 else 1) + failed_inserts E (h @ [Db_insert_one d]) es"
| "failed_inserts E h (e # es) = failed_inserts E (h @ [e]) es"

text \<open>The number of stored documents with a given id and entry date.\<close>

definition stored :: "json list \<Rightarrow> json \<Rightarrow> json \<Rightarrow> nat" where
  "stored docs vid entry_date = length (filter (matches vid entry_date) docs)"

text \<open>What a run of the loop over a batch of well-formed listings leaves: the calls \<open>tr\<close>
  and the documents \<open>new\<close> it added, and the counters it reached.\<close>

definition batch_run ::
  "env \<Rightarrow> json list \<Rightarrow> nat \<Rightarrow> nat \<Rightarrow> world \<Rightarrow> nat \<Rightarrow> nat \<Rightarrow> world \<Rightarrow> event list \<Rightarrow> json list \<Rightarrow> bool" where
  "batch_run E vs i d w i' d' w' tr new =
     (trace w' = trace w @ tr \<and> db w' = db w @ new
      \<and> ACCESS_TOKEN w' = ACCESS_TOKEN w \<and> headers w' = headers w \<and> AREAS w' = AREAS w
      \<and> i' = i + length new
      \<and> d' + length (filter is_insert tr) = d + length vs
      \<and> length new + failed_inserts E (trace w) tr = length (filter is_insert tr)
      \<and> lookup_ids tr = map listing_id vs
      \<and> filter is_telegram tr = [])"

text \<open>The store refuses the documents with one id. A listing with id \<open>n\<close>.\<close>

definition reject_env :: "json \<Rightarrow> env" where
  "reject_env bad = quiet_env\<lparr>insert_one_ok := (\<lambda>h d. py_index d ''id'' \<noteq> Inr bad)\<rparr>"

definition job :: "int \<Rightarrow> json" where
  "job n = JObj [(''id'', JInt n), (''url'', JStr ''u'')]"

text \<open>A listing with an id and no other field.\<close>

definition bare_job :: "int \<Rightarrow> json" where
  "bare_job n = JObj [(''id'', JInt n)]"

definition job_on :: "string \<Rightarrow> int \<Rightarrow> json" where
  "job_on date n =
     JObj [(''id'', JInt n), (''url'', JStr ''u''), (''entry_date'', JStr date),
           (''area_name'', JStr ''Perm'')]"

subsection \<open>Roles and categories\<close>

text \<open>A role as the deduplication reads it, a dict with a hashable \<^verbatim>\<open>id\<close>, and a category,
  a dict with a list of such roles under \<^verbatim>\<open>roles\<close>.\<close>

definition wf_role :: "json \<Rightarrow> bool" where
  "wf_role r = (case py_index r ''id'' of Inr i \<Rightarrow> hashable i | Inl e \<Rightarrow> False)"

definition wf_category :: "json \<Rightarrow> bool" where
  "wf_category c =
     (case py_index c ''roles'' of Inr (JList rs) \<Rightarrow> list_all wf_role rs | _ \<Rightarrow> False)"

definition role_key :: "json \<Rightarrow> json" where
  "role_key r = (case py_index r ''id'' of Inr i \<Rightarrow> py_key i | Inl e \<Rightarrow> JNull)"

definition category_roles :: "json \<Rightarrow> json list" where
  "category_roles c = (case py_index c ''roles'' of Inr (JList rs) \<Rightarrow> rs | _ \<Rightarrow> [])"

text \<open>The deduplication in the words of the specification: of the roles of a category, in
  their order, exactly those whose id occurs neither among the ids \<open>earlier\<close> (of the
  categories before) nor earlier in the same category.\<close>

definition first_occurrences :: "json set \<Rightarrow> json list \<Rightarrow> json list" where
  "first_occurrences earlier roles =
     map (\<lambda>j. roles ! j)
       (filter (\<lambda>j. role_key (roles ! j) \<notin> earlier \<union> role_key ` set (take j roles))
          [0..<length roles])"

definition surviving_roles :: "json list \<Rightarrow> nat \<Rightarrow> json list" where
  "surviving_roles categories i =
     first_occurrences (role_key ` set (concat (map category_roles (take i categories))))
       (category_roles (categories ! i))"

text \<open>The working set: one group per category that keeps a role, in the order of the
  categories.\<close>

definition working_set :: "json list \<Rightarrow> json list" where
  "working_set categories =
     map (\<lambda>s. JObj [(''roles'', JList s)])
       (filter (\<lambda>s. s \<noteq> []) (map (surviving_roles categories) [0..<length categories]))"

text \<open>The same, by recursion along the lists, as the proofs use it.\<close>

fun keep_first :: "json set \<Rightarrow> json list \<Rightarrow> json list" where
  "keep_first seen [] = []"
| "keep_first seen (r # rs) =
     (if role_key r \<in> seen then keep_first seen rs
      else r # keep_first (insert (role_key r) seen) rs)"

fun keep_categories :: "json set \<Rightarrow> json list \<Rightarrow> json list list" where
  "keep_categories seen [] = []"
| "keep_categories seen (c # cs) =
     keep_first seen (category_roles c)
       # keep_categories (seen \<union> role_key ` set (category_roles c)) cs"

definition role :: "int \<Rightarrow> json" where
  "role n = JObj [(''id'', JInt n), (''name'', JStr ''r'')]"

definition category :: "json list \<Rightarrow> json" where
  "category rs = JObj [(''name'', JStr ''c''), (''roles'', JList rs)]"

subsection \<open>Pages\<close>




text \<open>A well-formed page response, and an outside that answers every GET with the page
  asked for: \<open>P\<close> pages, the items \<open>items n\<close> on page \<open>n\<close>.\<close>

definition page_body :: "int \<Rightarrow> json list \<Rightarrow> json" where
  "page_body P items = JObj [(''items'', JList items), (''pages'', JInt P)]"

definition paged_env :: "int \<Rightarrow> (int \<Rightarrow> json list) \<Rightarrow> env" where
  "paged_env P items =
     quiet_env\<lparr>http_get := (\<lambda>h url a params.
        case map_of params ''page'' of
          Some (JInt n) \<Rightarrow> Response 200 (Some (page_body P (items n)))
        | _ \<Rightarrow> Transport_error)\<rparr>"

text \<open>100 items on the pages 0 and 1, 10 on every other page.\<close>

definition hundreds :: "int \<Rightarrow> json list" where
  "hundreds n = replicate (if n < 2 then 100 else 10) (job n)"


text \<open>One item on every page.\<close>

definition one_each :: "int \<Rightarrow> json list" where
  "one_each n = [job n]"

text \<open>A service that has the pages 0 to \<open>P - 1\<close>, except those listed as missing: it
  answers 400 to every other page index.\<close>

definition served_env :: "int \<Rightarrow> (int \<Rightarrow> json list) \<Rightarrow> int list \<Rightarrow> env" where
  "served_env P items missing =
     quiet_env\<lparr>http_get := (\<lambda>h url a params.
        case map_of params ''page'' of
          Some (JInt n) \<Rightarrow>
            if 0 \<le> n \<and> n < P \<and> n \<notin> set missing
            then Response 200 (Some (page_body P (items n)))
            else Response 400 None
        | _ \<Rightarrow> Transport_error)\<rparr>"




subsection \<open>The sweep\<close>




















section \<open>Basic facts\<close>

lemma has_key_index: "has_key j k \<Longrightarrow> \<exists>v. py_index j k = Inr v"
  by (cases j) auto

lemmas env_defs = quiet_env_def const_env_def token_env_def

lemmas run_defs = init_def emit_def new_events_def

section \<open>Refreshing the access token\<close>

lemma refresh_cases:
  assumes "refresh_access_token E w = (r, w')"
  shows "(r = Inr False \<and> w' = emit Token_post w)
       \<or> (r = Inl AttributeError \<and> w' = emit Token_post w
            \<and> (\<exists>status tokens. token_post E (trace w) = Response status (Some tokens)
                 \<and> \<not> raises_for_status status \<and> (\<forall>d. tokens \<noteq> JObj d)))
       \<or> ((case set_key E (trace w @ [Token_post]) (ACCESS_TOKEN w') of
              None \<Rightarrow> r = Inr True
            | Some e \<Rightarrow> if e = RequestException then r = Inr False else r = Inl e)
           \<and> truthy (ACCESS_TOKEN w') \<and> headers w' = Bearer (ACCESS_TOKEN w')
           \<and> trace w' = trace w @ [Token_post, Set_key (ACCESS_TOKEN w')]
           \<and> db w' = db w \<and> AREAS w' = AREAS w
           \<and> (\<exists>status d. token_post E (trace w) = Response status (Some (JObj d))
                 \<and> \<not> raises_for_status status
                 \<and> map_of d ''access_token'' = Some (ACCESS_TOKEN w')))"
proof (cases "token_post E (trace w)")
  case Transport_error
  with assms show ?thesis by (simp add: refresh_access_token_def)
next
  case (Response status body)
  show ?thesis
  proof (cases "raises_for_status status")
    case True
    with assms Response show ?thesis by (simp add: refresh_access_token_def)
  next
    case noraise: False
    show ?thesis
    proof (cases body)
      case None
      with assms Response noraise show ?thesis by (simp add: refresh_access_token_def)
    next
      case (Some tokens)
      show ?thesis
      proof (cases "\<exists>d. tokens = JObj d")
        case False
        then have "py_get tokens ''access_token'' JNull = Inl AttributeError"
          by (cases tokens) auto
        with assms Response noraise Some False show ?thesis
          by (simp add: refresh_access_token_def)
      next
        case True
        then obtain d where d: "tokens = JObj d" by blast
        show ?thesis
        proof (cases "map_of d ''access_token''")
          case None
          with assms Response noraise Some d show ?thesis
            by (simp add: refresh_access_token_def)
        next
          case tok: (Some t)
          with assms Response noraise Some d show ?thesis
            by (auto simp add: refresh_access_token_def emit_def Let_def
                split: if_splits option.splits)
        qed
      qed
    qed
  qed
qed

section \<open>Looking a country up\<close>

lemma next_country_url_find:
  "\<forall>c \<in> set countries. has_key c ''name'' \<Longrightarrow>
   next_country_url countries nm =
     (case find (\<lambda>c. py_index c ''name'' = Inr (JStr nm)) countries of
        None \<Rightarrow> Inr (JStr []) | Some c \<Rightarrow> py_index c ''url'')"
proof (induction countries)
  case Nil
  show ?case by simp
next
  case (Cons c cs)
  then obtain n where n: "py_index c ''name'' = Inr n"
    using has_key_index by fastforce
  with Cons show ?case by simp
qed

text \<open>
  C6. For every list of countries (dicts with a name) that \<^verbatim>\<open>fetch_countries\<close> returns and
  every name, \<^verbatim>\<open>find_country_url\<close> returns the \<^verbatim>\<open>url\<close> of the first country whose name
  equals the given name, and the empty string, not None, when no country has that name.
\<close>

theorem find_country_url_first_match:
  assumes "fetch_countries E w = (Inr (JList countries), w')"
    and "\<forall>c \<in> set countries. has_key c ''name''"
  shows "find_country_url E country_name w =
      ((case find (\<lambda>c. py_index c ''name'' = Inr (JStr country_name)) countries of
          None \<Rightarrow> Inr (JStr [])
        | Some c \<Rightarrow> py_index c ''url''), w')"
  using assms by (simp add: find_country_url_def next_country_url_find split: sum.splits)

lemma fetch_three_countries:
  "fetch_countries (const_env (JList three_countries)) (init (JStr ''t'') []) =
     (Inr (JList three_countries),
      emit (Http_get (JStr ''https://api.hh.ru/areas/countries'') (Bearer (JStr ''t'')) [])
        (init (JStr ''t'') []))"
  by (simp add: fetch_countries_def api_get_def env_defs run_defs finish_get_def
      raises_for_status_def three_countries_def BASE_URL_def)

theorem find_country_url_first_match_witness:
  "find_country_url (const_env (JList three_countries)) ''B'' (init (JStr ''t'') []) =
     (Inr (JStr ''u2''),
      emit (Http_get (JStr ''https://api.hh.ru/areas/countries'') (Bearer (JStr ''t'')) [])
        (init (JStr ''t'') []))
   \<and> find_country_url (const_env (JList three_countries)) ''C'' (init (JStr ''t'') []) =
     (Inr (JStr []),
      emit (Http_get (JStr ''https://api.hh.ru/areas/countries'') (Bearer (JStr ''t'')) [])
        (init (JStr ''t'') []))"
proof -
  have names: "\<forall>c \<in> set three_countries. has_key c ''name''"
    by (simp add: three_countries_def)
  show ?thesis
    using find_country_url_first_match [OF fetch_three_countries names, of "''B''"]
      find_country_url_first_match [OF fetch_three_countries names, of "''C''"]
    by (simp add: three_countries_def)
qed




section \<open>The GET primitive\<close>

lemma finish_get_failed: "failed_response (Response status body) \<Longrightarrow> finish_get status body = JNull"
  by (auto simp add: failed_response_def finish_get_def)

text \<open>
  C4, as amended. In every call of \<^verbatim>\<open>_get\<close> there is at most one refresh of the token and
  there are at most two GETs. A first answer other than 401 gives one GET and nothing
  else. A first answer 401 is followed by exactly one refresh; when the refresh returns
  True, by exactly one more GET of the same url and parameters under the refreshed
  header, and a failure of that GET (also a second 401) gives None with no second
  refresh; when the refresh returns False, by no GET, and the call gives None; when the
  refresh raises, by no GET either, and the call raises the same exception instead of
  giving None.
\<close>

theorem api_get_one_refresh_one_retry:
  assumes run: "api_get E url params w = (r, w')"
  shows "length (filter (\<lambda>e. e = Token_post) (new_events w w')) \<le> 1
    \<and> length (filter is_http_get (new_events w w')) \<le> 2
    \<and> ((\<forall>body. http_get E (trace w) url (headers w) params \<noteq> Response 401 body) \<longrightarrow>
          new_events w w' = [Http_get url (headers w) params])
    \<and> ((\<exists>body. http_get E (trace w) url (headers w) params = Response 401 body) \<longrightarrow>
          (\<exists>rest. new_events w w' = Http_get url (headers w) params # Token_post # rest
             \<and> Token_post \<notin> set rest
             \<and> (case fst (refresh_access_token E (emit (Http_get url (headers w) params) w)) of
                  Inr True \<Rightarrow>
                    rest = [Set_key (ACCESS_TOKEN w'), Http_get url (Bearer (ACCESS_TOKEN w')) params]
                    \<and> headers w' = Bearer (ACCESS_TOKEN w')
                    \<and> (failed_response (http_get E (butlast (trace w')) url (headers w') params)
                         \<longrightarrow> r = Inr JNull)
                | Inr False \<Rightarrow>
                    r = Inr JNull \<and> (rest = [] \<or> rest = [Set_key (ACCESS_TOKEN w')])
                | Inl e \<Rightarrow>
                    r = Inl e \<and> (rest = [] \<or> rest = [Set_key (ACCESS_TOKEN w')]))))"
proof (cases "\<exists>body. http_get E (trace w) url (headers w) params = Response 401 body")
  case False
  then have "new_events w w' = [Http_get url (headers w) params]"
    using run
    by (auto simp add: api_get_def new_events_def emit_def Let_def
        split: http_result.splits if_splits)
  with False show ?thesis by simp
next
  case True
  then obtain body where first: "http_get E (trace w) url (headers w) params = Response 401 body"
    by blast
  define w1 where "w1 = emit (Http_get url (headers w) params) w"
  obtain rr w2 where refr: "refresh_access_token E w1 = (rr, w2)"
    by (cases "refresh_access_token E w1") blast
  have tw1: "trace w1 = trace w @ [Http_get url (headers w) params]"
    by (simp add: w1_def emit_def)
  note c = refresh_cases [OF refr]
  show ?thesis
  proof (cases rr)
    case (Inl e)
    with run first refr have res: "r = Inl e" "w' = w2"
      by (auto simp add: api_get_def Let_def w1_def)
    from c Inl res tw1 have "new_events w w' = Http_get url (headers w) params # [Token_post]
         \<or> new_events w w' = Http_get url (headers w) params # Token_post # [Set_key (ACCESS_TOKEN w')]"
      by (auto simp add: new_events_def emit_def split: option.splits if_splits)
    with res Inl refr True show ?thesis
      by (auto simp add: w1_def [symmetric])
  next
    case (Inr ok)
    show ?thesis
    proof (cases ok)
      case False
      with run first refr Inr have res: "r = Inr JNull" "w' = w2"
        by (auto simp add: api_get_def Let_def w1_def)
      from c Inr False res tw1 have "new_events w w' = Http_get url (headers w) params # [Token_post]
         \<or> new_events w w' = Http_get url (headers w) params # Token_post # [Set_key (ACCESS_TOKEN w')]"
        by (auto simp add: new_events_def emit_def split: option.splits if_splits)
      with res Inr False refr True show ?thesis
        by (auto simp add: w1_def [symmetric])
    next
      case ok: True
      from c Inr ok have w2: "headers w2 = Bearer (ACCESS_TOKEN w2)"
        "trace w2 = trace w1 @ [Token_post, Set_key (ACCESS_TOKEN w2)]"
        by (auto split: option.splits if_splits)
      define w3 where "w3 = emit (Http_get url (headers w2) params) w2"
      from run first refr Inr ok have w': "w' = w3"
        and r: "r = (case http_get E (trace w2) url (headers w2) params of
                 Transport_error \<Rightarrow> Inr JNull
               | Response status2 body2 \<Rightarrow> Inr (finish_get status2 body2))"
        by (auto simp add: api_get_def Let_def w1_def w3_def split: http_result.splits)
      have w3: "ACCESS_TOKEN w3 = ACCESS_TOKEN w2" "headers w3 = headers w2"
        "trace w3 = trace w2 @ [Http_get url (headers w2) params]"
        by (simp_all add: w3_def emit_def)
      have ne: "new_events w w' = Http_get url (headers w) params # Token_post #
          [Set_key (ACCESS_TOKEN w'), Http_get url (Bearer (ACCESS_TOKEN w')) params]"
        using w' w3 w2 tw1 by (simp add: new_events_def)
      have fail: "failed_response (http_get E (butlast (trace w')) url (headers w') params)
                         \<longrightarrow> r = Inr JNull"
        using w' w3 r
        by (auto simp add: butlast_append finish_get_failed split: http_result.splits)
      from ne fail w' w3 w2 Inr ok refr True show ?thesis
        by (auto simp add: w1_def [symmetric])
    qed
  qed
qed

theorem api_get_one_refresh_one_retry_witness:
  "api_get (expired_env (Response 200 (Some new_token)) None (Response 200 (Some (JInt 7))))
       (JStr ''u'') [] (init (JStr ''old'') []) =
     (Inr (JInt 7),
      \<lparr>ACCESS_TOKEN = JStr ''new'', headers = Bearer (JStr ''new''), AREAS = [], db = [],
        trace = [Http_get (JStr ''u'') (Bearer (JStr ''old'')) [], Token_post,
                 Set_key (JStr ''new''), Http_get (JStr ''u'') (Bearer (JStr ''new'')) []]\<rparr>)
   \<and> api_get (expired_env (Response 200 (Some new_token)) None (Response 401 None))
       (JStr ''u'') [] (init (JStr ''old'') []) =
     (Inr JNull,
      \<lparr>ACCESS_TOKEN = JStr ''new'', headers = Bearer (JStr ''new''), AREAS = [], db = [],
        trace = [Http_get (JStr ''u'') (Bearer (JStr ''old'')) [], Token_post,
                 Set_key (JStr ''new''), Http_get (JStr ''u'') (Bearer (JStr ''new'')) []]\<rparr>)
   \<and> api_get (expired_env Transport_error None (Response 200 (Some (JInt 7))))
       (JStr ''u'') [] (init (JStr ''old'') []) =
     (Inr JNull,
      \<lparr>ACCESS_TOKEN = JStr ''old'', headers = Bearer (JStr ''old''), AREAS = [], db = [],
        trace = [Http_get (JStr ''u'') (Bearer (JStr ''old'')) [], Token_post]\<rparr>)
   \<and> api_get (const_env (JInt 7)) (JStr ''u'') [] (init (JStr ''old'') []) =
     (Inr (JInt 7),
      \<lparr>ACCESS_TOKEN = JStr ''old'', headers = Bearer (JStr ''old''), AREAS = [], db = [],
        trace = [Http_get (JStr ''u'') (Bearer (JStr ''old'')) []]\<rparr>)"
proof -
  note defs = api_get_def refresh_access_token_def finish_get_def expired_env_def env_defs
    run_defs raises_for_status_def new_token_def
  have retried: "api_get (expired_env (Response 200 (Some new_token)) None (Response 200 (Some (JInt 7))))
       (JStr ''u'') [] (init (JStr ''old'') []) =
     (Inr (JInt 7),
      \<lparr>ACCESS_TOKEN = JStr ''new'', headers = Bearer (JStr ''new''), AREAS = [], db = [],
        trace = [Http_get (JStr ''u'') (Bearer (JStr ''old'')) [], Token_post,
                 Set_key (JStr ''new''), Http_get (JStr ''u'') (Bearer (JStr ''new'')) []]\<rparr>)"
    by (simp add: defs)
  have again: "api_get (expired_env (Response 200 (Some new_token)) None (Response 401 None))
       (JStr ''u'') [] (init (JStr ''old'') []) =
     (Inr JNull,
      \<lparr>ACCESS_TOKEN = JStr ''new'', headers = Bearer (JStr ''new''), AREAS = [], db = [],
        trace = [Http_get (JStr ''u'') (Bearer (JStr ''old'')) [], Token_post,
                 Set_key (JStr ''new''), Http_get (JStr ''u'') (Bearer (JStr ''new'')) []]\<rparr>)"
    by (simp add: defs)
  have norefresh: "api_get (expired_env Transport_error None (Response 200 (Some (JInt 7))))
       (JStr ''u'') [] (init (JStr ''old'') []) =
     (Inr JNull,
      \<lparr>ACCESS_TOKEN = JStr ''old'', headers = Bearer (JStr ''old''), AREAS = [], db = [],
        trace = [Http_get (JStr ''u'') (Bearer (JStr ''old'')) [], Token_post]\<rparr>)"
    by (simp add: defs)
  have plain: "api_get (const_env (JInt 7)) (JStr ''u'') [] (init (JStr ''old'') []) =
     (Inr (JInt 7),
      \<lparr>ACCESS_TOKEN = JStr ''old'', headers = Bearer (JStr ''old''), AREAS = [], db = [],
        trace = [Http_get (JStr ''u'') (Bearer (JStr ''old'')) []]\<rparr>)"
    by (simp add: defs)
  show ?thesis
    using api_get_one_refresh_one_retry [OF retried] api_get_one_refresh_one_retry [OF again]
      api_get_one_refresh_one_retry [OF norefresh] api_get_one_refresh_one_retry [OF plain]
      retried again norefresh plain
    by simp
qed

text \<open>The claim as stated fails where the refresh raises: after a 401, a token endpoint
  that answers with a number as access token makes the write of the token raise
  AttributeError, which neither the refresh nor \<^verbatim>\<open>_get\<close> catches; the call raises instead
  of giving None.\<close>

theorem api_get_refresh_raises_counterexample:
  "api_get (expired_env (Response 200 (Some numeric_token)) (Some AttributeError)
         (Response 200 (Some (JInt 7))))
       (JStr ''u'') [] (init (JStr ''old'') []) =
     (Inl AttributeError,
      \<lparr>ACCESS_TOKEN = JInt 123, headers = Bearer (JInt 123), AREAS = [], db = [],
        trace = [Http_get (JStr ''u'') (Bearer (JStr ''old'')) [], Token_post,
                 Set_key (JInt 123)]\<rparr>)"
  by (simp add: api_get_def refresh_access_token_def finish_get_def expired_env_def env_defs
      run_defs raises_for_status_def numeric_token_def)




section \<open>Saving a batch: the loop\<close>

lemma save_loop_Cons_wf:
  assumes "wf_listing v"
  shows "save_loop E a (v # vs) i d w =
    (let date = utcnow E (trace w); v2 = stamp date a v; vid = listing_id v;
         w1 = emit (Db_find_one vid (JStr date)) w
     in if find_one (db w) vid (JStr date) \<noteq> None then save_loop E a vs i (d + 1) w1
        else
          (let w2 = emit (Db_insert_one v2) w1
           in if insert_one_ok E (trace w1) v2
              then save_loop E a vs (i + 1) d (w2\<lparr>db := db w2 @ [v2]\<rparr>)
              else save_loop E a vs i d w2))"
proof -
  from assms obtain obj where v: "v = JObj obj" and
    keys: "map_of obj ''id'' \<noteq> None" "map_of obj ''url'' \<noteq> None"
    by (cases v) (auto simp add: wf_listing_def)
  then obtain vid u where "map_of obj ''id'' = Some vid" "map_of obj ''url'' = Some u"
    by auto
  then show ?thesis
    by (simp add: v update_conv' listing_id_def Let_def)
qed

lemma save_loop_append:
  "save_loop E a (xs @ ys) i d w =
     (case save_loop E a xs i d w of
        (Inl e, w1) \<Rightarrow> (Inl e, w1)
      | (Inr (i1, d1), w1) \<Rightarrow> save_loop E a ys i1 d1 w1)"
  by (induction xs arbitrary: i d w) (auto simp add: Let_def split: sum.splits)


lemma save_loop_run:
  assumes "\<forall>v \<in> set vs. wf_listing v"
  shows "\<exists>i' d' w' tr new. save_loop E a vs i d w = (Inr (i', d'), w')
           \<and> batch_run E vs i d w i' d' w' tr new"
  using assms
proof (induction vs arbitrary: i d w)
  case Nil
  have "batch_run E [] i d w i d w [] []"
    by (simp add: batch_run_def)
  then show ?case by auto
next
  case (Cons v vs)
  then have wf: "wf_listing v" and rest: "\<forall>v \<in> set vs. wf_listing v"
    by auto
  define date where "date = utcnow E (trace w)"
  define v2 where "v2 = stamp date a v"
  define vid where "vid = listing_id v"
  define w1 where "w1 = emit (Db_find_one vid (JStr date)) w"
  define w2 where "w2 = emit (Db_insert_one v2) w1"
  have w1: "trace w1 = trace w @ [Db_find_one vid (JStr date)]" "db w1 = db w"
    "ACCESS_TOKEN w1 = ACCESS_TOKEN w" "headers w1 = headers w" "AREAS w1 = AREAS w"
    by (simp_all add: w1_def emit_def)
  have w2: "trace w2 = trace w @ [Db_find_one vid (JStr date), Db_insert_one v2]" "db w2 = db w"
    "ACCESS_TOKEN w2 = ACCESS_TOKEN w" "headers w2 = headers w" "AREAS w2 = AREAS w"
    by (simp_all add: w2_def emit_def w1)
  note step = save_loop_Cons_wf [OF wf, of E a vs i d w]
  note unf = Let_def date_def v2_def vid_def w1_def w2_def
  show ?case
  proof (cases "find_one (db w) vid (JStr date) \<noteq> None")
    case True
    from Cons.IH [OF rest, of i "d + 1" w1] obtain i' d' w' tr new
      where run: "save_loop E a vs i (d + 1) w1 = (Inr (i', d'), w')"
        and br: "batch_run E vs i (d + 1) w1 i' d' w' tr new"
      by blast
    have "save_loop E a (v # vs) i d w = (Inr (i', d'), w')"
      using step True run by (simp add: unf del: save_loop.simps)
    moreover have "batch_run E (v # vs) i d w i' d' w' (Db_find_one vid (JStr date) # tr) new"
      using br w1 by (simp add: batch_run_def vid_def)
    ultimately show ?thesis by blast
  next
    case False
    show ?thesis
    proof (cases "insert_one_ok E (trace w1) v2")
      case True
      define w3 where "w3 = w2\<lparr>db := db w2 @ [v2]\<rparr>"
      have w3: "trace w3 = trace w2" "db w3 = db w @ [v2]"
        "ACCESS_TOKEN w3 = ACCESS_TOKEN w" "headers w3 = headers w" "AREAS w3 = AREAS w"
        by (simp_all add: w3_def w2)
      from Cons.IH [OF rest, of "i + 1" d w3] obtain i' d' w' tr new
        where run: "save_loop E a vs (i + 1) d w3 = (Inr (i', d'), w')"
          and br: "batch_run E vs (i + 1) d w3 i' d' w' tr new"
        by blast
      have "save_loop E a (v # vs) i d w = (Inr (i', d'), w')"
        using step False True run by (simp add: unf w3_def del: save_loop.simps)
      moreover have "batch_run E (v # vs) i d w i' d' w'
          (Db_find_one vid (JStr date) # Db_insert_one v2 # tr) (v2 # new)"
        using br w3 w2 w1 True by (simp add: batch_run_def vid_def)
      ultimately show ?thesis by blast
    next
      case nok: False
      from Cons.IH [OF rest, of i d w2] obtain i' d' w' tr new
        where run: "save_loop E a vs i d w2 = (Inr (i', d'), w')"
          and br: "batch_run E vs i d w2 i' d' w' tr new"
        by blast
      have "save_loop E a (v # vs) i d w = (Inr (i', d'), w')"
        using step False nok run by (simp add: unf del: save_loop.simps)
      moreover have "batch_run E (v # vs) i d w i' d' w'
          (Db_find_one vid (JStr date) # Db_insert_one v2 # tr) new"
        using br w2 w1 nok by (simp add: batch_run_def vid_def)
      ultimately show ?thesis by blast
    qed
  qed
qed

lemma matches_stamp:
  assumes "wf_listing v"
  shows "matches vid' date' (stamp date a v) \<longleftrightarrow> vid' = listing_id v \<and> date' = JStr date"
proof -
  from assms obtain obj vid where v: "v = JObj obj" and "map_of obj ''id'' = Some vid"
    by (cases v) (auto simp add: wf_listing_def)
  then show ?thesis
    by (auto simp add: matches_def listing_id_def update_conv')
qed

lemma find_one_None: "find_one docs vid date = None \<longleftrightarrow> stored docs vid date = 0"
  by (auto simp add: find_one_def stored_def find_None_iff filter_empty_conv)

lemma find_one_found: "find_one docs vid date \<noteq> None \<longleftrightarrow> (\<exists>x \<in> set docs. matches vid date x)"
  by (auto simp add: find_one_def find_None_iff)

lemma find_one_Some_ex:
  "(\<exists>y. find_one docs vid date = Some y) \<longleftrightarrow> (\<exists>x \<in> set docs. matches vid date x)"
  using find_one_found [of docs vid date] by simp

lemma save_loop_single:
  assumes "wf_listing v"
  shows "save_loop E a [v] i d w =
    (let date = utcnow E (trace w); v2 = stamp date a v; vid = listing_id v;
         w1 = emit (Db_find_one vid (JStr date)) w
     in if find_one (db w) vid (JStr date) \<noteq> None then (Inr (i, d + 1), w1)
        else
          (let w2 = emit (Db_insert_one v2) w1
           in if insert_one_ok E (trace w1) v2
              then (Inr (i + 1, d), w2\<lparr>db := db w2 @ [v2]\<rparr>)
              else (Inr (i, d), w2)))"
  using save_loop_Cons_wf [OF assms, of E a "[]" i d w] by (simp add: Let_def)

lemma stored_invariant:
  assumes "\<forall>v \<in> set vs. wf_listing v"
  shows "stored (db (snd (save_loop E a vs i d w))) vid date \<le> max 1 (stored (db w) vid date)"
  using assms
proof (induction vs arbitrary: i d w)
  case Nil
  show ?case by simp
next
  case (Cons v vs)
  then have wf: "wf_listing v" and rest: "\<forall>v \<in> set vs. wf_listing v"
    by auto
  define today where "today = utcnow E (trace w)"
  define v2 where "v2 = stamp today a v"
  define w1 where "w1 = emit (Db_find_one (listing_id v) (JStr today)) w"
  define w2 where "w2 = emit (Db_insert_one v2) w1"
  define w3 where "w3 = w2\<lparr>db := db w2 @ [v2]\<rparr>"
  have dbs: "db w1 = db w" "db w2 = db w" "db w3 = db w @ [v2]"
    by (simp_all add: w1_def w2_def w3_def emit_def)
  note step = save_loop_Cons_wf [OF wf, of E a vs i d w]
  note unf = Let_def today_def v2_def w1_def w2_def w3_def
  show ?case
  proof (cases "find_one (db w) (listing_id v) (JStr today) \<noteq> None")
    case True
    then have "save_loop E a (v # vs) i d w = save_loop E a vs i (d + 1) w1"
      using step by (simp add: unf del: save_loop.simps)
    with Cons.IH [OF rest, of i "d + 1" w1] dbs show ?thesis by simp
  next
    case False
    then have none: "stored (db w) (listing_id v) (JStr today) = 0"
      by (simp add: find_one_None)
    show ?thesis
    proof (cases "insert_one_ok E (trace w1) v2")
      case True
      with False have eq: "save_loop E a (v # vs) i d w = save_loop E a vs (i + 1) d w3"
        using step by (simp add: unf del: save_loop.simps)
      have "stored (db w3) vid date \<le> max 1 (stored (db w) vid date)"
        using none matches_stamp [OF wf, of vid date today a]
        by (auto simp add: dbs stored_def v2_def)
      with Cons.IH [OF rest, of "i + 1" d w3] eq show ?thesis by simp
    next
      case nok: False
      with False have "save_loop E a (v # vs) i d w = save_loop E a vs i d w2"
        using step by (simp add: unf del: save_loop.simps)
      with Cons.IH [OF rest, of i d w2] dbs show ?thesis by simp
    qed
  qed
qed

section \<open>Saving a batch: duplicates\<close>

text \<open>
  C1, as amended. For every batch of listings (dicts with an id and a url) and every
  listing \<open>v\<close> in it, reached in the world \<open>wi\<close> after the listings before it:
  \<^verbatim>\<open>insert_one\<close> is called on the stamped listing if and only if no stored document has
  the same id and the same entry date (the date of that moment), and the listing is
  stored if and only if, moreover, the insert does not fail; otherwise the store is
  unchanged. Hence a run never brings the number of stored documents with one id and one
  entry date above one (or above what it was), whatever the outside does; and when no
  stored document with that id carries the current date, as on a later day, and the insert
  does not fail, a new document is stored for the same id.
\<close>

theorem same_day_dedup:
  assumes "\<forall>x \<in> set (pre @ v # post). wf_listing x"
  shows "\<exists>ins dup wi ins' dup' wj.
      save_loop E area_name pre 0 0 w = (Inr (ins, dup), wi)
    \<and> save_loop E area_name [v] ins dup wi = (Inr (ins', dup'), wj)
    \<and> save_loop E area_name (pre @ v # post) 0 0 w = save_loop E area_name post ins' dup' wj
    \<and> (let date = utcnow E (trace wi); doc = stamp date area_name v;
           found = (\<exists>x \<in> set (db wi). matches (listing_id v) (JStr date) x);
           accepted = insert_one_ok E (trace wi @ [Db_find_one (listing_id v) (JStr date)]) doc
       in (Db_insert_one doc \<in> set (new_events wi wj) \<longleftrightarrow> \<not> found)
        \<and> (db wj = db wi @ [doc] \<longleftrightarrow> \<not> found \<and> accepted)
        \<and> (db wj = db wi \<longleftrightarrow> found \<or> \<not> accepted)
        \<and> (dup' = dup + 1 \<longleftrightarrow> found)
        \<and> ((\<forall>x \<in> set (db wi). py_index x ''entry_date'' \<noteq> Inr (JStr date)) \<and> accepted
             \<longrightarrow> db wj = db wi @ [doc]))
    \<and> (\<forall>vid date. stored (db (snd (save_loop E area_name (pre @ v # post) 0 0 w))) vid date
          \<le> max 1 (stored (db w) vid date))"
proof -
  from assms have wfpre: "\<forall>x \<in> set pre. wf_listing x" and wf: "wf_listing v"
    by auto
  from save_loop_run [OF wfpre, of E area_name 0 0 w] obtain ins dup wi
    where pre: "save_loop E area_name pre 0 0 w = (Inr (ins, dup), wi)"
    by blast
  define date where "date = utcnow E (trace wi)"
  define doc where "doc = stamp date area_name v"
  define found where "found = (\<exists>x \<in> set (db wi). matches (listing_id v) (JStr date) x)"
  define accepted where
    "accepted = insert_one_ok E (trace wi @ [Db_find_one (listing_id v) (JStr date)]) doc"
  define w1 where "w1 = emit (Db_find_one (listing_id v) (JStr date)) wi"
  define w2 where "w2 = emit (Db_insert_one doc) w1"
  define ins' where "ins' = (if \<not> found \<and> accepted then ins + 1 else ins)"
  define dup' where "dup' = (if found then dup + 1 else dup)"
  define wj where
    "wj = (if found then w1 else if accepted then w2\<lparr>db := db w2 @ [doc]\<rparr> else w2)"
  have one: "save_loop E area_name [v] ins dup wi = (Inr (ins', dup'), wj)"
    using save_loop_single [OF wf, of E area_name ins dup wi]
    by (simp add: Let_def find_one_Some_ex date_def doc_def found_def accepted_def w1_def w2_def
        ins'_def dup'_def wj_def emit_def del: save_loop.simps)
  have all: "save_loop E area_name (pre @ v # post) 0 0 w = save_loop E area_name post ins' dup' wj"
    using save_loop_append [of E area_name pre "[v] @ post" 0 0 w]
      save_loop_append [of E area_name "[v]" post ins dup wi] pre one
    by simp
  have ne: "new_events wi wj = (if found then [Db_find_one (listing_id v) (JStr date)]
                else [Db_find_one (listing_id v) (JStr date), Db_insert_one doc])"
    by (simp add: new_events_def wj_def w1_def w2_def emit_def)
  have dbj: "db wj = (if \<not> found \<and> accepted then db wi @ [doc] else db wi)"
    by (simp add: wj_def w1_def w2_def emit_def)
  have dated: "(\<forall>x \<in> set (db wi). py_index x ''entry_date'' \<noteq> Inr (JStr date)) \<Longrightarrow> \<not> found"
    by (auto simp add: found_def matches_def)
  have step: "(Db_insert_one doc \<in> set (new_events wi wj) \<longleftrightarrow> \<not> found)
        \<and> (db wj = db wi @ [doc] \<longleftrightarrow> \<not> found \<and> accepted)
        \<and> (db wj = db wi \<longleftrightarrow> found \<or> \<not> accepted)
        \<and> (dup' = dup + 1 \<longleftrightarrow> found)
        \<and> ((\<forall>x \<in> set (db wi). py_index x ''entry_date'' \<noteq> Inr (JStr date)) \<and> accepted
             \<longrightarrow> db wj = db wi @ [doc])"
    using dated by (auto simp add: ne dbj dup'_def)
  have inv: "\<forall>vid date. stored (db (snd (save_loop E area_name (pre @ v # post) 0 0 w))) vid date
          \<le> max 1 (stored (db w) vid date)"
    using stored_invariant [OF assms] by blast
  from pre one all step inv show ?thesis
    unfolding date_def doc_def found_def accepted_def Let_def by blast
qed

theorem same_day_dedup_witness:
  "db (snd (save_loop quiet_env (JStr ''Perm'') ([job 1] @ job 1 # [job 2]) 0 0
        ((init (JStr ''t'') [])\<lparr>db := [job_on ''03.11.2026'' 1]\<rparr>))) =
       [job_on ''03.11.2026'' 1, job_on ''04.11.2026'' 1, job_on ''04.11.2026'' 2]
   \<and> fst (save_loop quiet_env (JStr ''Perm'') ([job 1] @ job 1 # [job 2]) 0 0
        ((init (JStr ''t'') [])\<lparr>db := [job_on ''03.11.2026'' 1]\<rparr>)) = Inr (2, 1)"
proof -
  have wf: "\<forall>x \<in> set ([job 1] @ job 1 # [job 2]). wf_listing x"
    by (simp add: wf_listing_def job_def)
  show ?thesis
    using same_day_dedup [OF wf, of quiet_env "JStr ''Perm''"
        "(init (JStr ''t'') [])\<lparr>db := [job_on ''03.11.2026'' 1]\<rparr>"]
    by (simp add: job_def job_on_def env_defs run_defs find_one_def matches_def)
qed

text \<open>The claim as stated fails where the insert fails: no document with the id and the
  date is stored, and the listing is not inserted.\<close>

theorem insert_iff_no_duplicate_counterexample:
  "find_one (db (init (JStr ''t'') [])) (JInt 1) (JStr ''04.11.2026'') = None
   \<and> utcnow (reject_env (JInt 1)) [] = ''04.11.2026''
   \<and> save_vacancies_to_db (reject_env (JInt 1)) [job 1] (JStr ''Perm'') (init (JStr ''t'') []) =
       (Inr (),
        \<lparr>ACCESS_TOKEN = JStr ''t'', headers = Bearer (JStr ''t''), AREAS = [], db = [],
          trace = [Db_find_one (JInt 1) (JStr ''04.11.2026''),
                   Db_insert_one (job_on ''04.11.2026'' 1), Telegram (Summary 0 0)]\<rparr>)"
  by (simp add: save_vacancies_to_db_def bot_send_message_def reject_env_def job_def job_on_def
      env_defs run_defs find_one_def matches_def)

section \<open>Saving a batch: failures and counts\<close>

text \<open>
  For listings that are dicts with an id and a url, and whatever the store answers to the
  inserts, the loop of \<^verbatim>\<open>save_vacancies_to_db\<close> runs to the end of the batch: every
  listing is looked up in the store, in order, every listing that is not a duplicate is
  passed to \<^verbatim>\<open>insert_one\<close>, no notification is sent during the batch, and after it
  exactly one, with the two counts.
\<close>

lemma batch_with_urls_runs_through:
  assumes "\<forall>v \<in> set vacancies. wf_listing v"
  shows "\<exists>inserted duplicates w1.
      save_loop E area_name vacancies 0 0 w = (Inr (inserted, duplicates), w1)
    \<and> lookup_ids (new_events w w1) = map listing_id vacancies
    \<and> length (filter is_insert (new_events w w1)) = length vacancies - duplicates
    \<and> duplicates \<le> length vacancies
    \<and> filter is_telegram (new_events w w1) = []
    \<and> snd (save_vacancies_to_db E vacancies area_name w) =
        emit (Telegram (Summary inserted duplicates)) w1
    \<and> filter is_telegram (new_events w (snd (save_vacancies_to_db E vacancies area_name w))) =
        [Telegram (Summary inserted duplicates)]"
proof -
  from save_loop_run [OF assms, of E area_name 0 0 w] obtain i' d' w' tr new
    where run: "save_loop E area_name vacancies 0 0 w = (Inr (i', d'), w')"
      and br: "batch_run E vacancies 0 0 w i' d' w' tr new"
    by blast
  from br have tr: "new_events w w' = tr"
    by (simp add: batch_run_def new_events_def)
  have sent: "snd (save_vacancies_to_db E vacancies area_name w) = emit (Telegram (Summary i' d')) w'"
    using run
    by (simp add: save_vacancies_to_db_def bot_send_message_def Let_def
        split: http_result.splits option.splits)
  have "new_events w (emit (Telegram (Summary i' d')) w') = tr @ [Telegram (Summary i' d')]"
    using br by (simp add: batch_run_def new_events_def emit_def)
  with run br tr sent show ?thesis
    by (auto simp add: batch_run_def)
qed

lemma batch_with_urls_runs_through_example:
  "save_vacancies_to_db (reject_env (JInt 2)) [job 1, job 2, job 3] (JStr ''Perm'')
       (init (JStr ''t'') []) =
     (Inr (),
      \<lparr>ACCESS_TOKEN = JStr ''t'', headers = Bearer (JStr ''t''), AREAS = [],
        db = [job_on ''04.11.2026'' 1, job_on ''04.11.2026'' 3],
        trace = [Db_find_one (JInt 1) (JStr ''04.11.2026''), Db_insert_one (job_on ''04.11.2026'' 1),
                 Db_find_one (JInt 2) (JStr ''04.11.2026''), Db_insert_one (job_on ''04.11.2026'' 2),
                 Db_find_one (JInt 3) (JStr ''04.11.2026''), Db_insert_one (job_on ''04.11.2026'' 3),
                 Telegram (Summary 2 0)]\<rparr>)"
  by (simp add: save_vacancies_to_db_def bot_send_message_def reject_env_def job_def job_on_def
      env_defs run_defs find_one_def matches_def)

text \<open>
  C7. The claim does not hold of the code for every batch. The handler of a failed insert
  formats \<^verbatim>\<open>vacancy['url']\<close> into its log line (line 172); for a listing without a
  \<^verbatim>\<open>url\<close> this raises KeyError inside the handler, and the exception leaves
  \<^verbatim>\<open>save_vacancies_to_db\<close>. In the batch of a listing with id 1 and no url followed by a
  listing with id 2, with a store that refuses id 1, the second listing is never stamped,
  looked up or inserted, and no summary is sent.
\<close>

theorem failed_insert_without_url_aborts:
  "save_vacancies_to_db (reject_env (JInt 1)) [bare_job 1, job 2] (JStr ''Perm'')
       (init (JStr ''t'') []) =
     (Inl KeyError,
      \<lparr>ACCESS_TOKEN = JStr ''t'', headers = Bearer (JStr ''t''), AREAS = [], db = [],
        trace = [Db_find_one (JInt 1) (JStr ''04.11.2026''),
                 Db_insert_one (JObj [(''id'', JInt 1), (''entry_date'', JStr ''04.11.2026''),
                                      (''area_name'', JStr ''Perm'')])]\<rparr>)"
  by (simp add: save_vacancies_to_db_def bot_send_message_def reject_env_def bare_job_def job_def
      env_defs run_defs find_one_def matches_def)

text \<open>
  C10. For every batch of N listings (dicts with an id and a url), the counts that
  \<^verbatim>\<open>save_vacancies_to_db\<close> reports satisfy inserted + duplicates + failed = N, where failed
  is the number of calls of \<^verbatim>\<open>insert_one\<close> that the store answered with an error; so
  inserted + duplicates is at most N, and equals N exactly when no insert fails. The
  inserted count is the number of documents added to the store.
\<close>

theorem reported_counts:
  assumes "\<forall>v \<in> set vacancies. wf_listing v"
  shows "\<exists>inserted duplicates w1.
      save_loop E area_name vacancies 0 0 w = (Inr (inserted, duplicates), w1)
    \<and> new_events w1 (snd (save_vacancies_to_db E vacancies area_name w)) =
        [Telegram (Summary inserted duplicates)]
    \<and> inserted + duplicates + failed_inserts E (trace w) (new_events w w1) = length vacancies
    \<and> inserted + duplicates \<le> length vacancies
    \<and> (inserted + duplicates = length vacancies
         \<longleftrightarrow> failed_inserts E (trace w) (new_events w w1) = 0)
    \<and> length (db w1) = length (db w) + inserted"
proof -
  from save_loop_run [OF assms, of E area_name 0 0 w] obtain i' d' w' tr new
    where run: "save_loop E area_name vacancies 0 0 w = (Inr (i', d'), w')"
      and br: "batch_run E vacancies 0 0 w i' d' w' tr new"
    by blast
  from br have tr: "new_events w w' = tr"
    by (simp add: batch_run_def new_events_def)
  have sent: "snd (save_vacancies_to_db E vacancies area_name w) = emit (Telegram (Summary i' d')) w'"
    using run
    by (simp add: save_vacancies_to_db_def bot_send_message_def Let_def
        split: http_result.splits option.splits)
  have one: "new_events w' (emit (Telegram (Summary i' d')) w') = [Telegram (Summary i' d')]"
    by (simp add: new_events_def emit_def)
  from br have sum: "i' + d' + failed_inserts E (trace w) tr = length vacancies"
    and len: "length (db w') = length (db w) + i'"
    by (auto simp add: batch_run_def)
  from sum have "i' + d' \<le> length vacancies"
    and "i' + d' = length vacancies \<longleftrightarrow> failed_inserts E (trace w) tr = 0"
    by auto
  with run sent one sum len tr show ?thesis
    by auto
qed

theorem reported_counts_witness:
  "fst (save_loop (reject_env (JInt 2)) (JStr ''Perm'') [job 1, job 2, job 1, job 3] 0 0
        (init (JStr ''t'') [])) = Inr (2, 1)
   \<and> failed_inserts (reject_env (JInt 2)) []
       (new_events (init (JStr ''t'') [])
          (snd (save_loop (reject_env (JInt 2)) (JStr ''Perm'') [job 1, job 2, job 1, job 3] 0 0
             (init (JStr ''t'') [])))) = 1"
proof -
  have wf: "\<forall>v \<in> set [job 1, job 2, job 1, job 3]. wf_listing v"
    by (simp add: wf_listing_def job_def)
  show ?thesis
    using reported_counts [OF wf, of "reject_env (JInt 2)" "JStr ''Perm''" "init (JStr ''t'') []"]
    by (simp add: reject_env_def job_def job_on_def env_defs run_defs find_one_def matches_def)
qed

section \<open>Deduplicating the roles\<close>

lemma keep_first_index: "keep_first seen roles = first_occurrences seen roles"
proof (induction roles arbitrary: seen)
  case Nil
  show ?case by (simp add: first_occurrences_def)
next
  case (Cons r rs)
  have upt: "[0..<length (r # rs)] = 0 # map Suc [0..<length rs]"
    by (simp add: upt_conv_Cons map_Suc_upt del: upt_Suc)
  show ?case
  proof (cases "role_key r \<in> seen")
    case True
    then have aux: "\<And>k B. (k \<notin> seen \<and> k \<noteq> role_key r \<and> B) = (k \<notin> seen \<and> B)"
      by auto
    from True Cons [of seen] show ?thesis
      unfolding first_occurrences_def upt
      by (simp add: filter_map o_def aux)
  next
    case False
    have aux: "\<And>k B. (k \<noteq> role_key r \<and> k \<notin> seen \<and> B) = (k \<notin> seen \<and> k \<noteq> role_key r \<and> B)"
      by auto
    from False Cons [of "insert (role_key r) seen"] show ?thesis
      unfolding first_occurrences_def upt
      by (simp add: filter_map o_def aux)
  qed
qed

lemma keep_categories_index:
  "keep_categories seen cats =
     map (\<lambda>i. first_occurrences
                 (seen \<union> role_key ` set (concat (map category_roles (take i cats))))
                 (category_roles (cats ! i)))
       [0..<length cats]"
proof (induction cats arbitrary: seen)
  case Nil
  show ?case by simp
next
  case (Cons c cs)
  have upt: "[0..<length (c # cs)] = 0 # map Suc [0..<length cs]"
    by (simp add: upt_conv_Cons map_Suc_upt del: upt_Suc)
  show ?case
    unfolding upt
    by (simp add: Cons keep_first_index o_def image_Un Un_assoc)
qed

lemma dedup_roles_keep:
  assumes "list_all wf_role roles"
  shows "dedup_roles roles seen acc =
           Inr (acc @ keep_first seen roles, seen \<union> role_key ` set roles)"
  using assms
proof (induction roles arbitrary: seen acc)
  case Nil
  show ?case by simp
next
  case (Cons r rs)
  then obtain i where i: "py_index r ''id'' = Inr i" "hashable i"
    by (auto simp add: wf_role_def split: sum.splits)
  then have key: "role_key r = py_key i"
    by (simp add: role_key_def)
  from Cons have rest: "list_all wf_role rs" by simp
  show ?case
    using i key Cons.IH [OF rest] by (auto simp add: insert_absorb)
qed

lemma dedup_categories_keep:
  assumes "list_all wf_category cats"
  shows "dedup_categories cats seen filtered =
           Inr (filtered @ map (\<lambda>s. JObj [(''roles'', JList s)])
                  (filter (\<lambda>s. s \<noteq> []) (keep_categories seen cats)))"
  using assms
proof (induction cats arbitrary: seen filtered)
  case Nil
  show ?case by simp
next
  case (Cons c cs)
  then obtain rs where rs: "py_index c ''roles'' = Inr (JList rs)" "list_all wf_role rs"
    by (auto simp add: wf_category_def split: sum.splits json.splits)
  then have cr: "category_roles c = rs"
    by (simp add: category_roles_def)
  from Cons have rest: "list_all wf_category cs" by simp
  show ?case
    using rs cr Cons.IH [OF rest] by (simp add: dedup_roles_keep)
qed

text \<open>
  C5. For every list of role categories (dicts whose \<^verbatim>\<open>roles\<close> is a list of dicts with a
  hashable id), the deduplication of \<^verbatim>\<open>fetch_and_store_vacancies\<close> keeps, category by
  category and in the original order, exactly the roles whose id occurs neither in an
  earlier category nor earlier in the same category; a category that keeps no role
  leaves no group. For the categories with role ids 1, 2 and 2, 3 the working set is
  the roles 1, 2 for the first and the role 3 for the second.
\<close>

theorem dedup_first_occurrence_wins:
  assumes "list_all wf_category categories"
  shows "dedup_categories categories {} [] = Inr (working_set categories)"
  using dedup_categories_keep [OF assms, of "{}" "[]"]
  by (simp add: working_set_def surviving_roles_def [abs_def] keep_categories_index)

theorem dedup_first_occurrence_wins_witness:
  "list_all wf_category [category [role 1, role 2], category [role 2, role 3]]
   \<and> dedup_categories [category [role 1, role 2], category [role 2, role 3]] {} [] =
       Inr [JObj [(''roles'', JList [role 1, role 2])], JObj [(''roles'', JList [role 3])]]"
proof -
  have wf: "list_all wf_category [category [role 1, role 2], category [role 2, role 3]]"
    by (simp add: wf_category_def wf_role_def category_def role_def)
  show ?thesis
    using wf dedup_first_occurrence_wins [OF wf]
    by (simp add: category_def role_def)
qed

section \<open>Fetching all pages\<close>









lemma fetch_page_wf:
  assumes "get_vacancies E a ro page w = (Inr (JObj d), w1)"
    and "map_of d ''items'' = Some (JList xs)" and "map_of d ''pages'' = Some (JInt P)"
  shows "fetch_page E a ro page w = (Inr (Some (xs, JInt P)), w1)"
proof -
  from assms(2) have "d \<noteq> []" by auto
  with assms show ?thesis by (simp add: fetch_page_def)
qed

lemma fetch_loop_pages:
  assumes hyp: "\<forall>page w. 0 \<le> page \<and> page < max 1 P \<longrightarrow>
      (\<exists>d w1. get_vacancies E a ro page w = (Inr (JObj d), w1)
         \<and> map_of d ''items'' = Some (JList (items page)) \<and> map_of d ''pages'' = Some (JInt P))"
  shows "0 \<le> page \<Longrightarrow> \<exists>w'. fetch_loop E a ro acc page (JInt P) w =
           Some (Inr (acc @ concat (map items [page..P - 1])), w')"
proof (induction "nat (P - page)" arbitrary: acc page w)
  case 0
  then have ge: "\<not> page < P" by simp
  then have "fetch_loop E a ro acc page (JInt P) w = Some (Inr acc, w)"
    by (subst fetch_loop.simps) simp
  moreover from ge have "[page..P - 1] = []"
    by simp
  ultimately show ?case by simp
next
  case (Suc k)
  then have lt: "page < P" and k: "k = nat (P - (page + 1))" and nn: "0 \<le> page + 1"
    by auto
  from lt Suc.prems have "0 \<le> page \<and> page < max 1 P"
    by simp
  from hyp [rule_format, OF this] obtain d w1 where
    "get_vacancies E a ro page w = (Inr (JObj d), w1)"
    "map_of d ''items'' = Some (JList (items page))" "map_of d ''pages'' = Some (JInt P)"
    by blast
  then have fp: "fetch_page E a ro page w = (Inr (Some (items page, JInt P)), w1)"
    by (rule fetch_page_wf)
  with lt have unfold: "fetch_loop E a ro acc page (JInt P) w =
      fetch_loop E a ro (acc @ items page) (page + 1) (JInt P) w1"
    by (subst fetch_loop.simps) simp
  from lt have "[page..P - 1] = page # [page + 1..P - 1]"
    by (simp add: upto_rec1)
  with unfold Suc.hyps(1) [OF k nn, of "acc @ items page" w1] show ?case
    by simp
qed

text \<open>
  C2, as amended. For every area id and role id, when the response to every page with
  an index from 0 up to, and not including, max(P, 1) is an object with a list under
  \<^verbatim>\<open>items\<close> and the same number \<open>P\<close> under \<^verbatim>\<open>pages\<close> (nothing is asked of the
  answers to other page indices), \<^verbatim>\<open>fetch_all_vacancies\<close> returns the concatenation, in
  page order, of the items of the pages 0 to max(P, 1) - 1: page 0 is fetched before any
  total is known, and its items are returned also when it reports no page. With 3 pages
  of 100, 100 and 10 items the result has 210 elements.
\<close>

theorem fetch_all_vacancies_concat:
  assumes "\<forall>page w. 0 \<le> page \<and> page < max 1 P \<longrightarrow>
      (\<exists>d w1. get_vacancies E area_id role_id page w = (Inr (JObj d), w1)
         \<and> map_of d ''items'' = Some (JList (items page)) \<and> map_of d ''pages'' = Some (JInt P))"
  shows "\<exists>w'. fetch_all_vacancies E area_id role_id w =
           Some (Inr (concat (map items [0..max 1 P - 1])), w')"
proof -
  have "(0::int) \<le> 0 \<and> 0 < max 1 P"
    by simp
  from assms [rule_format, OF this] obtain d w1 where "get_vacancies E area_id role_id 0 w = (Inr (JObj d), w1)"
    "map_of d ''items'' = Some (JList (items 0))" "map_of d ''pages'' = Some (JInt P)"
    by blast
  then have fp: "fetch_page E area_id role_id 0 w = (Inr (Some (items 0, JInt P)), w1)"
    by (rule fetch_page_wf)
  then have unfold: "fetch_all_vacancies E area_id role_id w =
      fetch_loop E area_id role_id (items 0) 1 (JInt P) w1"
    unfolding fetch_all_vacancies_def by (subst fetch_loop.simps) simp
  have "[0..max 1 P - 1] = 0 # [1..P - 1]"
    by (cases "1 \<le> P") (simp_all add: upto_rec1 max_def)
  with unfold fetch_loop_pages [OF assms, of 1 "items 0" w1] show ?thesis
    by simp
qed

lemma paged_env_get:
  "get_vacancies (paged_env P items) a ro page w =
     (Inr (page_body P (items page)),
      emit (Http_get (JStr (BASE_URL @ ''/vacancies'')) (headers w) (vacancy_params a ro page)) w)"
  by (simp add: get_vacancies_def api_get_def paged_env_def env_defs vacancy_params_def
      finish_get_def raises_for_status_def Let_def)

theorem fetch_all_vacancies_concat_witness:
  "map_option fst (fetch_all_vacancies (served_env 3 hundreds []) (JInt 1) (JInt 2) (init (JStr ''t'') []))
     = Some (Inr (hundreds 0 @ hundreds 1 @ hundreds 2))
   \<and> length (hundreds 0 @ hundreds 1 @ hundreds 2) = 210"
proof -
  have pages: "\<forall>page w. 0 \<le> page \<and> page < max 1 3 \<longrightarrow> (\<exists>d w1.
      get_vacancies (served_env 3 hundreds []) (JInt 1) (JInt 2) page w = (Inr (JObj d), w1)
      \<and> map_of d ''items'' = Some (JList (hundreds page)) \<and> map_of d ''pages'' = Some (JInt 3))"
    by (simp add: get_vacancies_def api_get_def served_env_def env_defs vacancy_params_def
        finish_get_def raises_for_status_def Let_def page_body_def)
  have "[0..max 1 3 - 1] = [0, 1, 2::int]"
    by (simp add: upto_rec1)
  with fetch_all_vacancies_concat [OF pages, of "init (JStr ''t'') []"] show ?thesis
    by (auto simp add: hundreds_def)
qed

text \<open>The claim as stated fails where the pages report a total of 0: the pages 0 to -1
  have no items, and the items of page 0 are returned.\<close>

theorem fetch_all_vacancies_zero_pages_counterexample:
  "map_option fst (fetch_all_vacancies (paged_env 0 one_each) (JInt 1) (JInt 2) (init (JStr ''t'') []))
     = Some (Inr [job 0])
   \<and> concat (map one_each [0..0 - 1]) = []"
  by (simp add: fetch_all_vacancies_def fetch_loop.simps fetch_page_def paged_env_get
      page_body_def one_each_def)



section \<open>The sweep: what each step says to the chat\<close>


































section \<open>The sweep: when it ends early\<close>








end
